theory Spec2Isabelle
  imports Complex_Main "HOL-Library.AList" "HOL-Library.Sublist" "HOL-Library.Product_Lexorder"
begin

section \<open>The web-search engine of WebSearch.ts\<close>

text \<open>
  A shallow embedding of the retrieval-and-cache engine in
  \<^verbatim>\<open>src/web-search/src/WebSearch.ts\<close> (class \<^verbatim>\<open>WebSearch\<close>).

  \<^item> A JavaScript \<^verbatim>\<open>number\<close> is a \<^typ>\<open>real\<close>: arithmetic is exact, the rounding of
    IEEE doubles is not modelled.
  \<^item> A JavaScript string is a \<^typ>\<open>string\<close>; a \<^typ>\<open>char\<close> stands for one code unit and
    \<open>length\<close> for \<^verbatim>\<open>.length\<close>.
  \<^item> A thrown value is a \<open>thrown\<close>; code that may throw returns \<open>thrown + 'a\<close>, and
    a \<^verbatim>\<open>try/catch\<close> is a case distinction on that sum.
  \<^item> The platform (the \<^verbatim>\<open>URL\<close> class, \<^verbatim>\<open>JSON.parse\<close>, \<^verbatim>\<open>toFixed\<close>) and the
    network (axios, cheerio) are parameters: a \<open>platform\<close> record of functions, a
    \<open>page\<close> record of what the selectors return on the fetched document, and a
    \<open>world\<close> record of what the network calls of one retrieval return.
  \<^item> The mutable fields of the class are passed in and returned.
\<close>

subsection \<open>Strings\<close>

definition NL :: string where
  "NL = [CHR 0x0A]"

text \<open>\<^verbatim>\<open>s.startsWith(p)\<close>\<close>

definition startsWith :: "string \<Rightarrow> string \<Rightarrow> bool" where
  "startsWith s p = prefix p s"

text \<open>\<^verbatim>\<open>s.includes(p)\<close>: \<open>p\<close> occurs in \<open>s\<close> as a contiguous substring.\<close>

fun includesStr :: "string \<Rightarrow> string \<Rightarrow> bool" where
  "includesStr [] p = (p = [])"
| "includesStr (x # xs) p = (prefix p (x # xs) \<or> includesStr xs p)"

text \<open>\<^verbatim>\<open>s.replace(p, r)\<close> with a string pattern: the first occurrence only.\<close>

fun replaceFirst :: "string \<Rightarrow> string \<Rightarrow> string \<Rightarrow> string" where
  "replaceFirst [] p r = (if p = [] then r else [])"
| "replaceFirst (x # xs) p r =
     (if prefix p (x # xs) then r @ drop (length p) (x # xs)
      else x # replaceFirst xs p r)"

text \<open>\<^verbatim>\<open>parts.join(sep)\<close>\<close>

fun join :: "string list \<Rightarrow> string \<Rightarrow> string" where
  "join [] sep = []"
| "join [x] sep = x"
| "join (x # y # ys) sep = x @ sep @ join (y # ys) sep"

text \<open>
  White space of \<^verbatim>\<open>trim()\<close> and of the regular expression class \<^verbatim>\<open>\s\<close>, on the
  code units below 128: tab, line feed, vertical tab, form feed, carriage return, space.
\<close>

definition isSpace :: "char \<Rightarrow> bool" where
  "isSpace c = (c \<in> set [CHR 0x09, CHR 0x0A, CHR 0x0B, CHR 0x0C, CHR 0x0D, CHR 0x20])"

definition trim :: "string \<Rightarrow> string" where
  "trim s = rev (dropWhile isSpace (rev (dropWhile isSpace s)))"

text \<open>
  \<^verbatim>\<open>s.split(/\s+/)\<close>: the pieces between maximal runs of white space; a run at either
  end leaves an empty piece there. \<open>inSep\<close> says the previous code unit was white space,
  \<open>acc\<close> is the current piece, reversed.
\<close>

fun splitSpaces :: "bool \<Rightarrow> string \<Rightarrow> string \<Rightarrow> string list" where
  "splitSpaces inSep acc [] = [rev acc]"
| "splitSpaces inSep acc (x # xs) =
     (if isSpace x
      then (if inSep then splitSpaces True acc xs else rev acc # splitSpaces True [] xs)
      else splitSpaces False (x # acc) xs)"

text \<open>\<^verbatim>\<open>(s.match(/[.!?]/g) || []).length\<close>\<close>

definition countPunctuation :: "string \<Rightarrow> nat" where
  "countPunctuation s = length (filter (\<lambda>c. c \<in> set ''.!?'') s)"

subsection \<open>Thrown values and the platform\<close>

text \<open>
  \<^verbatim>\<open>error instanceof Error ? error.message : 'Unknown error'\<close> reads a thrown value:
  an \<^verbatim>\<open>Error\<close> object with its message, or any other value.
\<close>

datatype thrown = Error string | NotAnError

fun errorMessageOf :: "thrown \<Rightarrow> string" where
  "errorMessageOf (Error m) = m"
| "errorMessageOf NotAnError = ''Unknown error''"

text \<open>The fields of a \<^verbatim>\<open>URL\<close> object.\<close>

record url =
  hostname :: string
  pathname :: string
  search :: string
  hash :: string

text \<open>
  \<open>newURL\<close> is \<^verbatim>\<open>new URL(s)\<close>, which throws on a string it cannot parse;
  \<open>toFixed0 x\<close> is \<^verbatim>\<open>x.toFixed(0)\<close>; \<open>jsonType s\<close> is the text that
  \<^verbatim>\<open>${JSON.parse(s)['@type']}\<close> prints when the parse succeeds and the field is truthy.
\<close>

record platform =
  newURL :: "string \<Rightarrow> thrown + url"
  toFixed0 :: "real \<Rightarrow> string"
  jsonType :: "string \<Rightarrow> string option"

text \<open>
  An instance of \<open>newURL\<close> for the worked examples. It reads only the plain shape
  \<^verbatim>\<open>http(s)://host/path?query#fragment\<close> with a host of lower-case letters, dots and
  hyphens and a path of letters, digits, \<^verbatim>\<open>/\<close>, \<^verbatim>\<open>_\<close> and \<^verbatim>\<open>-\<close>, and refuses every
  other string with the message of Node's \<^verbatim>\<open>TypeError\<close>. On the addresses of the worked
  examples it returns the fields the \<^verbatim>\<open>URL\<close> class returns. The JSON blocks of the
  examples carry no \<^verbatim>\<open>@type\<close>, and none of them prints a confidence.
\<close>

definition hostChar :: "char \<Rightarrow> bool" where
  "hostChar c = (c \<in> set ''abcdefghijklmnopqrstuvwxyz.-'')"

definition pathChar :: "char \<Rightarrow> bool" where
  "pathChar c =
     (c \<in> set ''abcdefghijklmnopqrstuvwxyzABCDEFGHIJKLMNOPQRSTUVWXYZ0123456789/_-'')"

definition plainURL :: "string \<Rightarrow> thrown + url" where
  "plainURL s =
     (let rest = (if prefix ''https://'' s then Some (drop 8 s)
                  else if prefix ''http://'' s then Some (drop 7 s) else None)
      in case rest of
           None \<Rightarrow> Inl (Error ''Invalid URL'')
         | Some r \<Rightarrow>
             (let beforeHash = takeWhile (\<lambda>c. c \<noteq> CHR ''#'') r;
                  frag = drop (length beforeHash + 1) r;
                  beforeQuery = takeWhile (\<lambda>c. c \<noteq> CHR ''?'') beforeHash;
                  query = drop (length beforeQuery + 1) beforeHash;
                  host = takeWhile (\<lambda>c. c \<noteq> CHR ''/'') beforeQuery;
                  path = drop (length host) beforeQuery
              in if host \<noteq> [] \<and> list_all hostChar host \<and> list_all pathChar path
                 then Inr \<lparr>hostname = host,
                           pathname = (if path = [] then ''/'' else path),
                           search = (if query = [] then [] else CHR ''?'' # query),
                           hash = (if frag = [] then [] else CHR ''#'' # frag)\<rparr>
                 else Inl (Error ''Invalid URL'')))"

definition plainPlatform :: platform where
  "plainPlatform = \<lparr>newURL = plainURL, toFixed0 = (\<lambda>x. ''?''), jsonType = (\<lambda>s. None)\<rparr>"

subsection \<open>The cache: a Map in insertion order\<close>

text \<open>
  \<^verbatim>\<open>Map<string, {content, timestamp, ttl}>\<close>. A \<^verbatim>\<open>Map\<close> iterates in insertion
  order, and \<^verbatim>\<open>updateCache\<close> sorts \<^verbatim>\<open>cache.entries()\<close> with a stable sort, so the
  order is part of the state: the cache is an association list with distinct keys.
  \<^verbatim>\<open>set\<close> on a present key keeps its place, on a new key appends.
\<close>

record entry =
  content :: string
  timestamp :: real
  ttl :: real

type_synonym cache = "(string \<times> entry) list"

definition mapGet :: "cache \<Rightarrow> string \<Rightarrow> entry option" where
  "mapGet c k = map_of c k"

definition mapSet :: "cache \<Rightarrow> string \<Rightarrow> entry \<Rightarrow> cache" where
  "mapSet c k v = AList.update k v c"

definition mapDelete :: "cache \<Rightarrow> string \<Rightarrow> cache" where
  "mapDelete c k = filter (\<lambda>e. fst e \<noteq> k) c"

text \<open>The keys of a \<^verbatim>\<open>Map\<close> are distinct.\<close>

definition keysDistinct :: "cache \<Rightarrow> bool" where
  "keysDistinct c = distinct (map fst c)"

definition cacheSizeLimit :: nat where
  "cacheSizeLimit = 50"

text \<open>\<^verbatim>\<open>Math.ceil(this.cacheSizeLimit * 0.1)\<close>\<close>

definition toRemove :: nat where
  "toRemove = nat \<lceil>real cacheSizeLimit * 0.1\<rceil>"

text \<open>
  The sorted \<^verbatim>\<open>entries\<close> array of \<^verbatim>\<open>updateCache\<close>. \<^verbatim>\<open>Array.prototype.sort\<close> is
  stable, as \<open>sort_key\<close> is.
\<close>

definition sortedEntries :: "cache \<Rightarrow> (string \<times> entry) list" where
  "sortedEntries c = sort_key (\<lambda>e. timestamp (snd e)) c"

text \<open>
  \<^verbatim>\<open>updateCache(key, content, ttl)\<close> at clock reading \<open>now\<close> (\<^verbatim>\<open>Date.now() / 1000\<close>).
  The loop reads \<^verbatim>\<open>entries[i]\<close> for \<^verbatim>\<open>i < toRemove\<close>; it runs only when the cache
  holds at least \<open>cacheSizeLimit\<close> entries, so every index is in range.
\<close>

definition updateCache :: "cache \<Rightarrow> string \<Rightarrow> string \<Rightarrow> real \<Rightarrow> real \<Rightarrow> cache" where
  "updateCache c key txt t now =
     (let c' = (if length c \<ge> cacheSizeLimit
                then fold (\<lambda>e m. mapDelete m (fst e)) (take toRemove (sortedEntries c)) c
                else c)
      in mapSet c' key \<lparr>content = txt, timestamp = now, ttl = t\<rparr>)"

text \<open>
  A sequence of \<^verbatim>\<open>updateCache\<close> calls, each with its key, content, ttl and clock
  reading, from a given cache.
\<close>

fun puts :: "cache \<Rightarrow> (string \<times> string \<times> real \<times> real) list \<Rightarrow> cache" where
  "puts c [] = c"
| "puts c ((key, txt, t, now) # ops) = puts (updateCache c key txt t now) ops"

subsection \<open>Cache key and TTL policy\<close>

text \<open>
  \<^verbatim>\<open>getCacheKey(url)\<close>: the whole body is inside \<^verbatim>\<open>try\<close>, and the \<^verbatim>\<open>catch\<close> block
  returns \<^verbatim>\<open>url\<close>.
\<close>

definition getCacheKey :: "platform \<Rightarrow> string \<Rightarrow> string" where
  "getCacheKey P u =
     (case newURL P u of
        Inl e \<Rightarrow> u
      | Inr urlObj \<Rightarrow>
          if includesStr (pathname urlObj) ''/api/'' then u
          else hostname urlObj @ pathname urlObj)"

text \<open>
  \<^verbatim>\<open>getCacheTTL(url)\<close>: the \<^verbatim>\<open>catch\<close> block is empty and control falls through to
  \<^verbatim>\<open>return 3600\<close>.
\<close>

definition getCacheTTL :: "platform \<Rightarrow> string \<Rightarrow> real" where
  "getCacheTTL P u =
     (case newURL P u of
        Inl e \<Rightarrow> 3600
      | Inr urlObj \<Rightarrow>
          if includesStr (pathname urlObj) ''/feed'' \<or> includesStr (pathname urlObj) ''/timeline''
          then 300
          else if includesStr (hostname urlObj) ''github.com'' then 1800
          else if includesStr (hostname urlObj) ''news'' \<or> includesStr (hostname urlObj) ''reddit''
          then 600
          else 3600)"

subsection \<open>Extracted content, confidence and formatting\<close>

text \<open>
  The \<^verbatim>\<open>content\<close> object built by \<^verbatim>\<open>enhancedBasicScrape\<close>. A field that may be
  \<^verbatim>\<open>undefined\<close> is an option; \<^verbatim>\<open>githubData\<close> is \<^verbatim>\<open>null\<close> off the profile site.
\<close>

record metaInfo =
  title :: "string option"
  description :: "string option"
  image :: "string option"
  author :: "string option"
  publishedTime :: "string option"

record githubInfo =
  username :: string
  displayName :: string
  bio :: string
  location :: string
  website :: "string option"
  stats :: "string list"
  repositories :: "(string \<times> string) list"

record extracted =
  jsonLd :: "string list"
  metaData :: metaInfo
  mainContent :: "string list"
  githubData :: "githubInfo option"
  headings :: "(string \<times> string) list"

text \<open>A string or \<^verbatim>\<open>undefined\<close> in a condition: true for a non-empty string.\<close>

fun truthy :: "string option \<Rightarrow> bool" where
  "truthy None = False"
| "truthy (Some s) = (s \<noteq> [])"

definition calculateConfidence :: "extracted \<Rightarrow> real" where
  "calculateConfidence c =
     (let score = 0;
          score = (if length (jsonLd c) > 0 then score + 0.3 else score);
          score = (if truthy (title (metaData c)) then score + 0.2 else score);
          score = (if truthy (description (metaData c)) then score + 0.1 else score);
          score = (if length (mainContent c) > 0
                   then (let totalLength = length (join (mainContent c) [])
                         in if totalLength > 500 then score + 0.3
                            else if totalLength > 200 then score + 0.2
                            else if totalLength > 50 then score + 0.1
                            else score)
                   else score);
          score = (case githubData c of
                     None \<Rightarrow> score
                   | Some g \<Rightarrow> if username g \<noteq> [] then score + 0.1 else score)
      in min score 1)"

text \<open>\<^verbatim>\<open>if (v) parts.push(label + v)\<close>\<close>

fun pushIf :: "string \<Rightarrow> string option \<Rightarrow> string list" where
  "pushIf label None = []"
| "pushIf label (Some s) = (if s \<noteq> [] then [label @ s] else [])"

definition formatContent :: "platform \<Rightarrow> extracted \<Rightarrow> string" where
  "formatContent P c =
     (let parts =
            pushIf ''Title: '' (title (metaData c))
          @ pushIf ''Description: '' (description (metaData c))
          @ (case githubData c of
               None \<Rightarrow> []
             | Some g \<Rightarrow>
                 [NL @ ''GitHub Profile Data:'']
                 @ pushIf ''Username: '' (Some (username g))
                 @ pushIf ''Bio: '' (Some (bio g))
                 @ (if length (stats g) > 0 then [''Stats: '' @ join (stats g) '', ''] else []))
          @ (if length (mainContent c) > 0
             then [NL @ ''Main Content:''] @ take 5 (mainContent c)
             else [])
          @ (if length (jsonLd c) > 0
             then [NL @ ''Structured Data Found:'']
                  @ concat (map (\<lambda>json. case jsonType P json of
                                            None \<Rightarrow> []
                                          | Some ty \<Rightarrow> [''- '' @ ty]) (jsonLd c))
             else []);
          joined = join parts NL
      in if joined = [] then ''No content found'' else joined)"

subsection \<open>Main-content extraction\<close>

text \<open>
  What the cheerio queries of \<^verbatim>\<open>extractMainContent\<close> and \<^verbatim>\<open>enhancedBasicScrape\<close>
  return on the loaded document.
  \<^item> \<open>selectEl sel\<close> is \<^verbatim>\<open>$(sel)\<close> after the removal of script, style, nav, header
    and footer nodes: \<open>None\<close> when its \<^verbatim>\<open>length\<close> is 0, else its \<^verbatim>\<open>text()\<close> and the
    \<^verbatim>\<open>text()\<close> of each node of \<^verbatim>\<open>find('p, h1, h2, h3, li')\<close>, in document order.
  \<^item> \<open>blocks\<close> are the nodes of \<^verbatim>\<open>$('div, section, article, p')\<close>: the text of each
    without its children, and the number of its \<^verbatim>\<open>a\<close> descendants.
  \<^item> \<open>ldJson\<close>, \<open>meta\<close>, \<open>profile\<close> and \<open>allHeadings\<close> are the values the selectors
    of \<^verbatim>\<open>enhancedBasicScrape\<close> give for the fields of \<^verbatim>\<open>content\<close>.
\<close>

record element =
  elementText :: string
  found :: "string list"

record block =
  ownText :: string
  anchors :: nat

record page =
  selectEl :: "string \<Rightarrow> element option"
  blocks :: "block list"
  ldJson :: "string list"
  meta :: metaInfo
  profile :: githubInfo
  allHeadings :: "(string \<times> string) list"

definition contentSelectors :: "string list" where
  \<open>contentSelectors =
     [''main'', ''article'', ''[role="main"]'', ''#content'', ''.content'',
      ''.markdown-body'', ''.post-content'', ''.entry-content'',
      ''.article-body'', ''.story-body'', ''div[itemprop="articleBody"]'']\<close>

text \<open>The \<^verbatim>\<open>for\<close> loop over the selectors: the first one that qualifies returns.\<close>

fun selectorCascade :: "page \<Rightarrow> string list \<Rightarrow> string list option" where
  "selectorCascade pg [] = None"
| "selectorCascade pg (selector # rest) =
     (case selectEl pg selector of
        None \<Rightarrow> selectorCascade pg rest
      | Some el \<Rightarrow>
          if length (trim (elementText el)) > 100
          then Some (filter (\<lambda>t. length t > 20) (map trim (found el)))
          else selectorCascade pg rest)"

text \<open>The callback of \<^verbatim>\<open>each\<close>: the block it pushes, if any.\<close>

definition scoreBlock :: "block \<Rightarrow> (string \<times> nat) option" where
  "scoreBlock b =
     (let text = trim (ownText b)
      in if length text < 50 then None
         else (let linkDensity = real (anchors b) / (real (length text) / 100);
                   punctuationDensity = real (countPunctuation text) / (real (length text) / 100);
                   wordCount = length (splitSpaces False [] text);
                   score = (if wordCount > 10 then 1 else 0)
                         + (if linkDensity < 0.3 then 1 else 0)
                         + (if punctuationDensity > 0.5 then 1 else (0::nat))
               in if score \<ge> 2 then Some (text, score) else None))"

text \<open>
  The comparator \<^verbatim>\<open>b.score - a.score || b.text.length - a.text.length\<close> orders by
  score, then by length, both descending; the sort is stable.
\<close>

definition extractMainContent :: "page \<Rightarrow> string list" where
  "extractMainContent pg =
     (case selectorCascade pg contentSelectors of
        Some paragraphs \<Rightarrow> paragraphs
      | None \<Rightarrow>
          map fst (take 10 (sort_key (\<lambda>b. (- int (snd b), - int (length (fst b))))
                              (List.map_filter scoreBlock (blocks pg)))))"

text \<open>
  \<^verbatim>\<open>enhancedBasicScrape(url)\<close>; \<open>fetched\<close> is what \<^verbatim>\<open>axios.get\<close> and
  \<^verbatim>\<open>cheerio.load\<close> give: the loaded document, or the thrown failure.
\<close>

definition enhancedBasicScrape ::
  "platform \<Rightarrow> thrown + page \<Rightarrow> string \<Rightarrow> thrown + string \<times> real" where
  "enhancedBasicScrape P fetched u =
     (case fetched of
        Inl e \<Rightarrow> Inl e
      | Inr pg \<Rightarrow>
          (case newURL P u of
             Inl e \<Rightarrow> Inl e
           | Inr urlObj \<Rightarrow>
               (let domain = hostname urlObj;
                    c = \<lparr>jsonLd = ldJson pg,
                         metaData = meta pg,
                         mainContent = extractMainContent pg,
                         githubData = (if includesStr domain ''github.com''
                                       then Some (profile pg) else None),
                         headings = take 10 (allHeadings pg)\<rparr>;
                    confidence = calculateConfidence c
                in Inr (formatContent P c, confidence))))"

subsection \<open>The retrieval\<close>

definition strategiesBasic :: "string list" where
  "strategiesBasic = [''github.com'', ''wikipedia.org'', ''docs.python.org'', ''stackoverflow.com'']"

definition strategiesApi :: "(string \<times> string) list" where
  "strategiesApi =
     [(''github.com'', ''https://api.github.com''),
      (''reddit.com'', ''https://www.reddit.com''),
      (''news.ycombinator.com'', ''https://hacker-news.firebaseio.com/v0'')]"

definition strategiesDynamic :: "string list" where
  "strategiesDynamic =
     [''instagram.com'', ''x.com'', ''twitter.com'', ''linkedin.com'', ''facebook.com'']"

text \<open>
  \<^verbatim>\<open>domain in this.strategies.api\<close>: the \<^verbatim>\<open>in\<close> operator also finds the properties an
  object literal inherits from \<^verbatim>\<open>Object.prototype\<close>.
\<close>

definition objectPrototypeKeys :: "string list" where
  "objectPrototypeKeys =
     [''constructor'', ''__defineGetter__'', ''__defineSetter__'', ''hasOwnProperty'',
      ''__lookupGetter__'', ''__lookupSetter__'', ''isPrototypeOf'', ''propertyIsEnumerable'',
      ''toString'', ''valueOf'', ''__proto__'', ''toLocaleString'']"

definition inApi :: "string \<Rightarrow> bool" where
  "inApi domain = (domain \<in> set (map fst strategiesApi) \<or> domain \<in> set objectPrototypeKeys)"

text \<open>\<^verbatim>\<open>'='.repeat(30)\<close>\<close>

definition separator :: string where
  "separator = replicate 30 CHR ''=''"

text \<open>
  The \<^verbatim>\<open>warning\<close> literal of the dynamic-site branch; the five characters after the two
  line feeds are given by the bytes they have in the source file.
\<close>

definition warning :: string where
  "warning = NL @ NL
     @ [CHR 0xC3, CHR 0xA2, CHR 0xC5, CHR 0xA1, CHR 0xC2, CHR 0xA0, CHR 0xC3, CHR 0xAF,
        CHR 0xC2, CHR 0xB8]
     @ '' Note: This site loads content dynamically. Some information may be missing.''"

text \<open>
  What the network gives during one retrieval: the outcome of
  \<^verbatim>\<open>scrapeViaAPI(normalizedUrl)\<close>, the outcome of the page fetch, and the clock reading
  \<^verbatim>\<open>Date.now() / 1000\<close> taken by \<^verbatim>\<open>updateCache\<close>.
\<close>

record world =
  apiResult :: "thrown + string"
  fetched :: "thrown + page"
  writeClock :: real

text \<open>\<^verbatim>\<open>url.startsWith('http') ? url : `https://${url}`\<close>\<close>

definition normalizeUrl :: "string \<Rightarrow> string" where
  "normalizeUrl u = (if startsWith u ''http'' then u else ''https://'' @ u)"

text \<open>
  The \<^verbatim>\<open>try\<close> block of \<^verbatim>\<open>scrapeWebsite\<close>: \<open>Inl\<close> is an exception that reaches the
  \<^verbatim>\<open>catch\<close> block, \<open>Inr\<close> the returned text with the cache after the call. The inner
  \<^verbatim>\<open>try/catch\<close> around the API tier logs the failure and goes on. No statement that can
  throw follows an \<^verbatim>\<open>updateCache\<close>, so an exception leaves the cache as it was.
\<close>

definition scrapeWebsiteTry ::
  "platform \<Rightarrow> world \<Rightarrow> cache \<Rightarrow> string \<Rightarrow> string \<Rightarrow> thrown + string \<times> cache" where
  "scrapeWebsiteTry P W c normalizedUrl cacheKey =
     (case newURL P normalizedUrl of
        Inl e \<Rightarrow> Inl e
      | Inr urlObj \<Rightarrow>
          (let domain = replaceFirst (hostname urlObj) ''www.'' [];
               tier1 = (if inApi domain
                        then (case apiResult W of
                                Inr apiContent \<Rightarrow> Some apiContent
                              | Inl apiError \<Rightarrow> None)
                        else None)
           in case tier1 of
                Some apiContent \<Rightarrow>
                  (let t = getCacheTTL P normalizedUrl
                   in Inr (''API content from '' @ normalizedUrl @ '':'' @ NL @ separator @ NL
                             @ apiContent,
                           updateCache c cacheKey apiContent t (writeClock W)))
              | None \<Rightarrow>
                  (case enhancedBasicScrape P (fetched W) normalizedUrl of
                     Inl e \<Rightarrow> Inl e
                   | Inr (txt, confidence) \<Rightarrow>
                       if confidence > 0.5 \<or> domain \<in> set strategiesBasic
                       then (let t = getCacheTTL P normalizedUrl
                             in Inr (''Scraped content from '' @ normalizedUrl
                                       @ '' (confidence: '' @ toFixed0 P (confidence * 100)
                                       @ ''%):'' @ NL @ separator @ NL @ txt,
                                     updateCache c cacheKey txt t (writeClock W)))
                       else if domain \<in> set strategiesDynamic
                       then (let contentWithWarning = txt @ warning;
                                 t = min (getCacheTTL P normalizedUrl) 600
                             in Inr (''Scraped content from '' @ normalizedUrl
                                       @ '' (dynamic site):'' @ NL @ separator @ NL
                                       @ contentWithWarning,
                                     updateCache c cacheKey contentWithWarning t (writeClock W)))
                       else (let t = getCacheTTL P normalizedUrl
                             in Inr (''Scraped content from '' @ normalizedUrl @ '':'' @ NL
                                       @ separator @ NL @ txt,
                                     updateCache c cacheKey txt t (writeClock W))))))"

text \<open>
  \<^verbatim>\<open>scrapeWebsite(url)\<close> at clock reading \<open>now\<close>: the text returned and the cache after
  the call.
\<close>

definition scrapeWebsite ::
  "platform \<Rightarrow> world \<Rightarrow> cache \<Rightarrow> string \<Rightarrow> real \<Rightarrow> string \<times> cache" where
  "scrapeWebsite P W c u now =
     (let normalizedUrl = normalizeUrl u;
          cacheKey = getCacheKey P normalizedUrl;
          cached = mapGet c cacheKey;
          hit = (case cached of
                   None \<Rightarrow> None
                 | Some e \<Rightarrow> if now - timestamp e < ttl e then Some e else None)
      in case hit of
           Some e \<Rightarrow>
             (''Cached content from '' @ normalizedUrl @ '':'' @ NL @ separator @ NL @ content e, c)
         | None \<Rightarrow>
             (case scrapeWebsiteTry P W c normalizedUrl cacheKey of
                Inr r \<Rightarrow> r
              | Inl error \<Rightarrow>
                  (let errorMessage = errorMessageOf error;
                       cached = mapGet c cacheKey
                   in case cached of
                        Some e \<Rightarrow>
                          if includesStr errorMessage ''ETIMEDOUT''
                          then (''Cached content from '' @ normalizedUrl @ '' (network timeout):''
                                  @ NL @ separator @ NL @ content e, c)
                          else (''Error scraping '' @ normalizedUrl @ '': '' @ errorMessage, c)
                      | None \<Rightarrow>
                          (''Error scraping '' @ normalizedUrl @ '': '' @ errorMessage, c))))"

subsection \<open>Worked inputs\<close>

text \<open>
  Fifty addresses retrieved one per second, and the first of them once more half-way:
  the cache is full, and the entry of \<open>''a''\<close>, first in insertion order, is not among
  the five oldest.
\<close>

definition ops50 :: "(string \<times> string \<times> real \<times> real) list" where
  "ops50 =
     map (\<lambda>(n, ch). ([ch], ''page'', 3600, real n)) (enumerate 0 ''abcdefghijklmnopqrstuvwxy'')
     @ [(''a'', ''fresh'', 3600, 24.5)]
     @ map (\<lambda>(n, ch). ([ch], ''page'', 3600, real n)) (enumerate 25 ''zABCDEFGHIJKLMNOPQRSTUVWX'')"

text \<open>
  One entry, stored at second 1000 with a ttl of an hour, under the key of
  \<^verbatim>\<open>https://example.com\<close>.
\<close>

definition staleCache :: cache where
  "staleCache = [(''example.com/'', \<lparr>content = ''old page'', timestamp = 1000, ttl = 3600\<rparr>)]"

text \<open>Two networks that are down: a connection that times out, and one that is refused.\<close>

definition timedOut :: world where
  "timedOut =
     \<lparr>apiResult = Inl (Error ''No API available for this site''),
      fetched = Inl (Error ''connect ETIMEDOUT 93.184.216.34:443''),
      writeClock = 5000\<rparr>"










subsection \<open>The words of the specification\<close>

text \<open>
  "A scheme is present", read as in RFC 3986: the address begins with a letter, goes on
  with letters, digits, \<^verbatim>\<open>+\<close>, \<^verbatim>\<open>-\<close> or \<^verbatim>\<open>.\<close>, and a colon follows.
\<close>

definition specSchemeChar :: "char \<Rightarrow> bool" where
  "specSchemeChar c =
     (c \<in> set ''abcdefghijklmnopqrstuvwxyzABCDEFGHIJKLMNOPQRSTUVWXYZ0123456789+-.'')"

definition specLetter :: "char \<Rightarrow> bool" where
  "specLetter c = (c \<in> set ''abcdefghijklmnopqrstuvwxyzABCDEFGHIJKLMNOPQRSTUVWXYZ'')"

definition specSchemePresent :: "string \<Rightarrow> bool" where
  "specSchemePresent s =
     (case takeWhile (\<lambda>c. c \<noteq> CHR '':'') s of
        [] \<Rightarrow> False
      | x # xs \<Rightarrow> length (x # xs) < length s \<and> specLetter x \<and> list_all specSchemeChar xs)"

section \<open>Properties\<close>

subsection \<open>The cache store\<close>

lemma toRemove_eq: "toRemove = 5"
  by (simp add: toRemove_def cacheSizeLimit_def)

lemma fold_mapDelete:
  "fold (\<lambda>e m. mapDelete m (fst e)) es c = filter (\<lambda>p. fst p \<notin> fst ` set es) c"
proof (induction es arbitrary: c)
  case Nil
  then show ?case by simp
next
  case (Cons e es)
  show ?case using Cons.IH [of "mapDelete c (fst e)"]
    by (auto simp: mapDelete_def intro: filter_cong)
qed

lemma set_sortedEntries: "set (sortedEntries c) = set c"
  by (simp add: sortedEntries_def)

lemma length_sortedEntries: "length (sortedEntries c) = length c"
  by (simp add: sortedEntries_def)

lemma distinct_sortedEntries: "distinct c \<Longrightarrow> distinct (sortedEntries c)"
  by (simp add: sortedEntries_def)

lemma distinct_keys_entries: "distinct (map fst c) \<Longrightarrow> distinct c"
  by (simp add: distinct_map)

text \<open>With distinct keys, deleting the keys of some entries deletes exactly those entries.\<close>

lemma delete_keys_eq:
  assumes "distinct (map fst c)" and "set es \<subseteq> set c"
  shows "filter (\<lambda>p. fst p \<notin> fst ` set es) c = filter (\<lambda>p. p \<notin> set es) c"
proof (rule filter_cong [OF refl])
  fix p assume p: "p \<in> set c"
  have "fst p \<in> fst ` set es \<Longrightarrow> p \<in> set es"
  proof -
    assume "fst p \<in> fst ` set es"
    then obtain q where q: "q \<in> set es" "fst q = fst p" by auto
    with assms(2) have "q \<in> set c" by auto
    moreover have "inj_on fst (set c)" using assms(1) by (simp add: distinct_map)
    ultimately have "q = p" using p q(2) by (auto dest: inj_onD)
    with q(1) show "p \<in> set es" by simp
  qed
  then show "(fst p \<notin> fst ` set es) = (p \<notin> set es)" by auto
qed

lemma length_delete_entries:
  assumes "distinct c" and "distinct es" and "set es \<subseteq> set c"
  shows "length (filter (\<lambda>p. p \<notin> set es) c) = length c - length es"
proof -
  have "length (filter (\<lambda>p. p \<in> set es) c) = card ({p. p \<in> set es} \<inter> set c)"
    using assms(1) by (rule distinct_length_filter)
  also have "{p. p \<in> set es} \<inter> set c = set es" using assms(3) by auto
  also have "card (set es) = length es" using assms(2) by (rule distinct_card)
  finally have "length (filter (\<lambda>p. p \<in> set es) c) = length es" .
  moreover have "length (filter (\<lambda>p. p \<in> set es) c) + length (filter (\<lambda>p. \<not> p \<in> set es) c) = length c"
    by (rule sum_length_filter_compl)
  ultimately show ?thesis by simp
qed

text \<open>The entries taken from the front of the sorted array are no younger than the others.\<close>

lemma take_sorted_le:
  assumes "r \<in> set (take n (sort_key f c))" and "e \<in> set (drop n (sort_key f c))"
  shows "f r \<le> f e"
proof -
  let ?s = "sort_key f c"
  have s: "sorted (map f ?s)" by simp
  from assms(1) obtain i where i: "i < length (take n ?s)" "take n ?s ! i = r"
    by (auto simp: in_set_conv_nth)
  from assms(2) obtain j where j: "j < length (drop n ?s)" "drop n ?s ! j = e"
    by (auto simp: in_set_conv_nth)
  have "i \<le> n + j" "n + j < length ?s" "i < length ?s" using i(1) j(1) by auto
  then have "map f ?s ! i \<le> map f ?s ! (n + j)"
    using s by (simp add: sorted_iff_nth_mono del: sorted_sort_key)
  then show ?thesis using i j \<open>n + j < length ?s\<close> \<open>i < length ?s\<close> by simp
qed

lemma kept_in_drop:
  assumes "e \<in> set c" and "e \<notin> set (take n (sortedEntries c))"
  shows "e \<in> set (drop n (sortedEntries c))"
proof -
  have "e \<in> set (take n (sortedEntries c) @ drop n (sortedEntries c))"
    using assms(1) by (simp only: append_take_drop_id set_sortedEntries)
  then show ?thesis using assms(2) by (simp only: set_append Un_iff) blast
qed

lemma keysDistinct_mapSet: "keysDistinct c \<Longrightarrow> keysDistinct (mapSet c k v)"
  by (simp add: keysDistinct_def mapSet_def distinct_update)

lemma keysDistinct_filter: "keysDistinct c \<Longrightarrow> keysDistinct (filter P c)"
  by (simp add: keysDistinct_def distinct_map_filter)

lemma length_mapSet_le: "length (mapSet c k v) \<le> Suc (length c)"
  unfolding mapSet_def by (induction c) auto

lemma mapGet_mapSet: "mapGet (mapSet c k v) k' = (if k' = k then Some v else mapGet c k')"
  by (simp add: mapGet_def mapSet_def update_conv')

lemma evict_length:
  assumes "keysDistinct c" and "cacheSizeLimit \<le> length c"
  shows "length (fold (\<lambda>e m. mapDelete m (fst e)) (take toRemove (sortedEntries c)) c) = length c - 5"
proof -
  let ?es = "take toRemove (sortedEntries c)"
  have dc: "distinct c" using assms(1) by (simp add: keysDistinct_def distinct_keys_entries)
  have sub: "set ?es \<subseteq> set c"
    using set_take_subset [of toRemove "sortedEntries c"] by (simp add: set_sortedEntries)
  have des: "distinct ?es" using dc by (simp add: distinct_sortedEntries)
  have len: "length ?es = 5"
    using assms(2) by (simp add: toRemove_eq length_sortedEntries cacheSizeLimit_def)
  have "fold (\<lambda>e m. mapDelete m (fst e)) ?es c = filter (\<lambda>p. p \<notin> set ?es) c"
    using assms(1) sub by (simp add: fold_mapDelete delete_keys_eq keysDistinct_def)
  then show ?thesis using length_delete_entries [OF dc des sub] len by simp
qed

lemma updateCache_inv:
  assumes "keysDistinct c" and "length c \<le> cacheSizeLimit"
  shows "keysDistinct (updateCache c key txt t now) \<and> length (updateCache c key txt t now) \<le> cacheSizeLimit"
proof (cases "cacheSizeLimit \<le> length c")
  case True
  let ?c' = "fold (\<lambda>e m. mapDelete m (fst e)) (take toRemove (sortedEntries c)) c"
  have "length ?c' = length c - 5" using assms(1) True by (rule evict_length)
  then have "Suc (length ?c') \<le> cacheSizeLimit" using assms(2) True by (simp add: cacheSizeLimit_def)
  moreover have "keysDistinct ?c'" using assms(1) by (simp add: fold_mapDelete keysDistinct_filter)
  moreover have "length (mapSet ?c' key \<lparr>content = txt, timestamp = now, ttl = t\<rparr>) \<le> Suc (length ?c')"
    by (rule length_mapSet_le)
  ultimately show ?thesis using True
    by (simp add: updateCache_def Let_def keysDistinct_mapSet)
next
  case False
  then have "Suc (length c) \<le> cacheSizeLimit" by simp
  moreover have "length (mapSet c key \<lparr>content = txt, timestamp = now, ttl = t\<rparr>) \<le> Suc (length c)"
    by (rule length_mapSet_le)
  ultimately show ?thesis using False assms(1)
    by (simp add: updateCache_def Let_def keysDistinct_mapSet)
qed

lemma puts_inv:
  "keysDistinct c \<Longrightarrow> length c \<le> cacheSizeLimit \<Longrightarrow>
   keysDistinct (puts c ops) \<and> length (puts c ops) \<le> cacheSizeLimit"
proof (induction ops arbitrary: c)
  case Nil
  then show ?case by simp
next
  case (Cons x ops)
  obtain k b t n where x: "x = (k, b, t, n)" by (cases x) auto
  show ?case using Cons.IH [of "updateCache c k b t n"] updateCache_inv [OF Cons.prems, of k b t n]
    by (simp add: x)
qed

lemma mapGet_filter_keys:
  "mapGet (filter (\<lambda>p. fst p \<notin> K) c) k = (if k \<in> K then None else mapGet c k)"
  unfolding mapGet_def by (induction c) auto

text \<open>
  C1. From the empty cache of the constructor, after any sequence of \<^verbatim>\<open>updateCache\<close>
  calls the cache holds at most \<open>cacheSizeLimit = 50\<close> entries, and so it does after one
  more call; the entry just written is then found under its key. When the call begins
  with a full cache, the first \<open>toRemove = 5\<close> entries of the array sorted by
  \<open>timestamp\<close> are removed:
  they are entries of the cache, none of them is younger than an entry that stays, and a
  key other than the written one is found afterwards exactly when it was not among them.
  When the cache is not full, no other key changes.
\<close>

theorem updateCache_bounded_eviction:
  assumes "c = puts [] ops"
  shows "toRemove = 5 \<and>
     length c \<le> cacheSizeLimit \<and>
     length (updateCache c key body t now) \<le> cacheSizeLimit \<and>
     mapGet (updateCache c key body t now) key = Some \<lparr>content = body, timestamp = now, ttl = t\<rparr> \<and>
     (length c < cacheSizeLimit \<longrightarrow>
        (\<forall>k. k \<noteq> key \<longrightarrow> mapGet (updateCache c key body t now) k = mapGet c k)) \<and>
     (cacheSizeLimit \<le> length c \<longrightarrow>
        length (take 5 (sortedEntries c)) = 5 \<and>
        set (take 5 (sortedEntries c)) \<subseteq> set c \<and>
        (\<forall>r \<in> set (take 5 (sortedEntries c)). \<forall>e \<in> set c - set (take 5 (sortedEntries c)).
            timestamp (snd r) \<le> timestamp (snd e)) \<and>
        (\<forall>k. k \<noteq> key \<longrightarrow> mapGet (updateCache c key body t now) k =
            (if k \<in> fst ` set (take 5 (sortedEntries c)) then None else mapGet c k)))"
proof -
  have inv: "keysDistinct c \<and> length c \<le> cacheSizeLimit"
    unfolding assms by (rule puts_inv) (simp_all add: keysDistinct_def)
  have new: "mapGet (updateCache c key body t now) key = Some \<lparr>content = body, timestamp = now, ttl = t\<rparr>"
    by (simp add: updateCache_def Let_def mapGet_mapSet)
  have small: "\<forall>k. k \<noteq> key \<longrightarrow> mapGet (updateCache c key body t now) k = mapGet c k"
    if "length c < cacheSizeLimit"
    using that by (simp add: updateCache_def Let_def mapGet_mapSet)
  have full: "length (take 5 (sortedEntries c)) = 5 \<and>
        set (take 5 (sortedEntries c)) \<subseteq> set c \<and>
        (\<forall>r \<in> set (take 5 (sortedEntries c)). \<forall>e \<in> set c - set (take 5 (sortedEntries c)).
            timestamp (snd r) \<le> timestamp (snd e)) \<and>
        (\<forall>k. k \<noteq> key \<longrightarrow> mapGet (updateCache c key body t now) k =
            (if k \<in> fst ` set (take 5 (sortedEntries c)) then None else mapGet c k))"
    if lim: "cacheSizeLimit \<le> length c"
  proof -
    have 1: "length (take 5 (sortedEntries c)) = 5"
      using lim by (simp add: length_sortedEntries cacheSizeLimit_def)
    have 2: "set (take 5 (sortedEntries c)) \<subseteq> set c"
      using set_take_subset [of 5 "sortedEntries c"] by (simp add: set_sortedEntries)
    have 3: "timestamp (snd r) \<le> timestamp (snd e)"
      if "r \<in> set (take 5 (sortedEntries c))" and "e \<in> set c - set (take 5 (sortedEntries c))" for r e
    proof -
      from that(2) have "e \<in> set (drop 5 (sortedEntries c))" by (simp add: kept_in_drop)
      with that(1) show ?thesis
        unfolding sortedEntries_def by (rule take_sorted_le)
    qed
    have 4: "mapGet (updateCache c key body t now) k =
            (if k \<in> fst ` set (take 5 (sortedEntries c)) then None else mapGet c k)"
      if "k \<noteq> key" for k
      using that lim
      by (simp add: updateCache_def Let_def mapGet_mapSet fold_mapDelete mapGet_filter_keys toRemove_eq)
    from 1 2 3 4 show ?thesis by blast
  qed
  from inv new small full updateCache_inv [of c key body t now] toRemove_eq show ?thesis by blast
qed

theorem updateCache_bounded_eviction_witness:
  "cacheSizeLimit \<le> length (puts [] ops50) \<and>
   length (updateCache (puts [] ops50) ''new'' ''page'' 600 77) \<le> cacheSizeLimit \<and>
   mapGet (updateCache (puts [] ops50) ''new'' ''page'' 600 77) ''new''
     = Some \<lparr>content = ''page'', timestamp = 77, ttl = 600\<rparr> \<and>
   map fst (take 5 (sortedEntries (puts [] ops50))) = [''b'', ''c'', ''d'', ''e'', ''f''] \<and>
   mapGet (updateCache (puts [] ops50) ''new'' ''page'' 600 77) ''b'' = None"
proof -
  have full: "cacheSizeLimit \<le> length (puts [] ops50)"
    by code_simp
  have rem: "map fst (take 5 (sortedEntries (puts [] ops50))) = [''b'', ''c'', ''d'', ''e'', ''f'']"
    by code_simp
  have "''b'' \<in> set (map fst (take 5 (sortedEntries (puts [] ops50))))"
    unfolding rem by simp
  then have "''b'' \<in> fst ` set (take 5 (sortedEntries (puts [] ops50)))"
    by simp
  then show ?thesis
    using full rem updateCache_bounded_eviction [OF refl, of ops50 "''new''" "''page''" 600 77]
    by simp
qed

subsection \<open>Cache key and TTL policy\<close>

text \<open>
  C3. Two addresses that parse to the same \<open>hostname\<close> and \<open>pathname\<close> get the same
  key, \<open>hostname @ pathname\<close>, when the path does not contain \<^verbatim>\<open>/api/\<close>; when it does,
  the key of each is the address itself, so the two keys are equal only if the addresses
  are.
\<close>

theorem getCacheKey_collapse:
  assumes "newURL P a = Inr ua" and "newURL P b = Inr ub"
    and "hostname ua = hostname ub" and "pathname ua = pathname ub"
  shows "(\<not> includesStr (pathname ua) ''/api/'' \<longrightarrow>
            getCacheKey P a = getCacheKey P b \<and> getCacheKey P a = hostname ua @ pathname ua) \<and>
         (includesStr (pathname ua) ''/api/'' \<longrightarrow>
            getCacheKey P a = a \<and> getCacheKey P b = b \<and>
            (getCacheKey P a = getCacheKey P b) = (a = b))"
  using assms by (simp add: getCacheKey_def)

theorem getCacheKey_collapse_witness:
  "getCacheKey plainPlatform ''https://example.com/docs?utm=1''
     = getCacheKey plainPlatform ''https://example.com/docs?utm=2#top'' \<and>
   getCacheKey plainPlatform ''https://example.com/docs?utm=1'' = ''example.com/docs'' \<and>
   getCacheKey plainPlatform ''https://example.com/api/items?page=1''
     = ''https://example.com/api/items?page=1'' \<and>
   getCacheKey plainPlatform ''https://example.com/api/items?page=1''
     \<noteq> getCacheKey plainPlatform ''https://example.com/api/items?page=2''"
proof -
  have a: "newURL plainPlatform ''https://example.com/docs?utm=1''
             = Inr \<lparr>hostname = ''example.com'', pathname = ''/docs'', search = ''?utm=1'', hash = []\<rparr>"
    by code_simp
  have b: "newURL plainPlatform ''https://example.com/docs?utm=2#top''
             = Inr \<lparr>hostname = ''example.com'', pathname = ''/docs'', search = ''?utm=2'', hash = ''#top''\<rparr>"
    by code_simp
  have c: "newURL plainPlatform ''https://example.com/api/items?page=1''
             = Inr \<lparr>hostname = ''example.com'', pathname = ''/api/items'', search = ''?page=1'', hash = []\<rparr>"
    by code_simp
  have d: "newURL plainPlatform ''https://example.com/api/items?page=2''
             = Inr \<lparr>hostname = ''example.com'', pathname = ''/api/items'', search = ''?page=2'', hash = []\<rparr>"
    by code_simp
  have plain: "\<not> includesStr ''/docs'' ''/api/''" by code_simp
  have api: "includesStr ''/api/items'' ''/api/''" by code_simp
  have 1: "getCacheKey plainPlatform ''https://example.com/docs?utm=1''
             = getCacheKey plainPlatform ''https://example.com/docs?utm=2#top'' \<and>
           getCacheKey plainPlatform ''https://example.com/docs?utm=1'' = ''example.com/docs''"
    using getCacheKey_collapse [OF a b] plain by auto
  have 2: "getCacheKey plainPlatform ''https://example.com/api/items?page=1''
             = ''https://example.com/api/items?page=1'' \<and>
           getCacheKey plainPlatform ''https://example.com/api/items?page=1''
             \<noteq> getCacheKey plainPlatform ''https://example.com/api/items?page=2''"
    using getCacheKey_collapse [OF c d] api by auto
  from 1 2 show ?thesis by blast
qed

text \<open>
  C9. On a string that \<^verbatim>\<open>new URL\<close> refuses, the key is the string itself and the TTL is
  the default 3600. Both functions return a value on every string: the exception is
  caught inside them, and their result types have no place for one.
\<close>

theorem parse_failure_defaults:
  assumes "newURL P u = Inl e"
  shows "getCacheKey P u = u \<and> getCacheTTL P u = 3600"
  using assms by (simp add: getCacheKey_def getCacheTTL_def)

theorem parse_failure_defaults_witness:
  "newURL plainPlatform ''not a url'' = Inl (Error ''Invalid URL'') \<and>
   getCacheKey plainPlatform ''not a url'' = ''not a url'' \<and>
   getCacheTTL plainPlatform ''not a url'' = 3600"
proof -
  have "newURL plainPlatform ''not a url'' = Inl (Error ''Invalid URL'')"
    by code_simp
  then show ?thesis using parse_failure_defaults [of plainPlatform "''not a url''"] by simp
qed

text \<open>
  C5, as the specification states it, fails: the path \<^verbatim>\<open>/myfeed\<close> contains \<^verbatim>\<open>feed\<close>,
  and the TTL of \<^verbatim>\<open>https://example.com/myfeed\<close> is the default 3600, not 300.
\<close>

theorem getCacheTTL_feed_counterexample:
  "newURL plainPlatform ''https://example.com/myfeed''
     = Inr \<lparr>hostname = ''example.com'', pathname = ''/myfeed'', search = [], hash = []\<rparr> \<and>
   includesStr ''/myfeed'' ''feed'' \<and>
   getCacheTTL plainPlatform ''https://example.com/myfeed'' = 3600 \<and>
   getCacheTTL plainPlatform ''https://example.com/myfeed'' \<noteq> 300"
  by code_simp

text \<open>
  C5, amended. For an address that parses, in this order: a path that contains
  \<^verbatim>\<open>/feed\<close> or \<^verbatim>\<open>/timeline\<close> gives 300; otherwise a host name that contains
  \<^verbatim>\<open>github.com\<close> gives 1800; otherwise a host name that contains \<^verbatim>\<open>news\<close> or
  \<^verbatim>\<open>reddit\<close> gives 600; otherwise the TTL is 3600.
\<close>

theorem getCacheTTL_priority:
  assumes "newURL P u = Inr urlObj"
  shows "(includesStr (pathname urlObj) ''/feed'' \<or> includesStr (pathname urlObj) ''/timeline''
            \<longrightarrow> getCacheTTL P u = 300) \<and>
         (\<not> includesStr (pathname urlObj) ''/feed'' \<and> \<not> includesStr (pathname urlObj) ''/timeline'' \<and>
          includesStr (hostname urlObj) ''github.com''
            \<longrightarrow> getCacheTTL P u = 1800) \<and>
         (\<not> includesStr (pathname urlObj) ''/feed'' \<and> \<not> includesStr (pathname urlObj) ''/timeline'' \<and>
          \<not> includesStr (hostname urlObj) ''github.com'' \<and>
          (includesStr (hostname urlObj) ''news'' \<or> includesStr (hostname urlObj) ''reddit'')
            \<longrightarrow> getCacheTTL P u = 600) \<and>
         (\<not> includesStr (pathname urlObj) ''/feed'' \<and> \<not> includesStr (pathname urlObj) ''/timeline'' \<and>
          \<not> includesStr (hostname urlObj) ''github.com'' \<and>
          \<not> includesStr (hostname urlObj) ''news'' \<and> \<not> includesStr (hostname urlObj) ''reddit''
            \<longrightarrow> getCacheTTL P u = 3600)"
  using assms by (simp add: getCacheTTL_def)

theorem getCacheTTL_priority_witness:
  "getCacheTTL plainPlatform ''https://github.com/feed'' = 300 \<and>
   getCacheTTL plainPlatform ''https://github.com/torvalds'' = 1800 \<and>
   getCacheTTL plainPlatform ''https://news.ycombinator.com/item'' = 600 \<and>
   getCacheTTL plainPlatform ''https://example.com/about'' = 3600"
proof -
  have a: "newURL plainPlatform ''https://github.com/feed''
             = Inr \<lparr>hostname = ''github.com'', pathname = ''/feed'', search = [], hash = []\<rparr>"
    by code_simp
  have b: "newURL plainPlatform ''https://github.com/torvalds''
             = Inr \<lparr>hostname = ''github.com'', pathname = ''/torvalds'', search = [], hash = []\<rparr>"
    by code_simp
  have c: "newURL plainPlatform ''https://news.ycombinator.com/item''
             = Inr \<lparr>hostname = ''news.ycombinator.com'', pathname = ''/item'', search = [], hash = []\<rparr>"
    by code_simp
  have d: "newURL plainPlatform ''https://example.com/about''
             = Inr \<lparr>hostname = ''example.com'', pathname = ''/about'', search = [], hash = []\<rparr>"
    by code_simp
  have paths: "includesStr ''/feed'' ''/feed''"
    "\<not> includesStr ''/torvalds'' ''/feed''" "\<not> includesStr ''/torvalds'' ''/timeline''"
    "\<not> includesStr ''/item'' ''/feed''" "\<not> includesStr ''/item'' ''/timeline''"
    "\<not> includesStr ''/about'' ''/feed''" "\<not> includesStr ''/about'' ''/timeline''"
    by code_simp+
  have hosts: "includesStr ''github.com'' ''github.com''"
    "\<not> includesStr ''news.ycombinator.com'' ''github.com''"
    "includesStr ''news.ycombinator.com'' ''news''"
    "\<not> includesStr ''example.com'' ''github.com''"
    "\<not> includesStr ''example.com'' ''news''" "\<not> includesStr ''example.com'' ''reddit''"
    by code_simp+
  show ?thesis
    using getCacheTTL_priority [OF a] getCacheTTL_priority [OF b]
      getCacheTTL_priority [OF c] getCacheTTL_priority [OF d] paths hosts
    by simp
qed

subsection \<open>Normalization\<close>

text \<open>
  C4, as the specification states it, fails: \<^verbatim>\<open>ftp://example.com\<close> has a scheme, and
  normalization does not leave it unchanged.
\<close>

theorem normalizeUrl_scheme_counterexample:
  "specSchemePresent ''ftp://example.com'' \<and>
   normalizeUrl ''ftp://example.com'' = ''https://ftp://example.com'' \<and>
   normalizeUrl ''ftp://example.com'' \<noteq> ''ftp://example.com''"
  by code_simp

text \<open>
  C4, amended. Normalization leaves an address that starts with \<^verbatim>\<open>http://\<close> or
  \<^verbatim>\<open>https://\<close> unchanged, and prefixes \<^verbatim>\<open>https://\<close> to an address that does not start
  with \<^verbatim>\<open>http\<close>.
\<close>

theorem normalizeUrl_http:
  "(startsWith u ''http://'' \<or> startsWith u ''https://'' \<longrightarrow> normalizeUrl u = u) \<and>
   (\<not> startsWith u ''http'' \<longrightarrow> normalizeUrl u = ''https://'' @ u)"
  by (auto simp: normalizeUrl_def startsWith_def prefix_def)

theorem normalizeUrl_http_witness:
  "normalizeUrl ''https://example.com'' = ''https://example.com'' \<and>
   normalizeUrl ''http://example.com'' = ''http://example.com'' \<and>
   normalizeUrl ''example.com'' = ''https://example.com''"
proof -
  have "startsWith ''https://example.com'' ''https://''" "startsWith ''http://example.com'' ''http://''"
    "\<not> startsWith ''example.com'' ''http''"
    by code_simp+
  then show ?thesis
    using normalizeUrl_http [of "''https://example.com''"] normalizeUrl_http [of "''http://example.com''"]
      normalizeUrl_http [of "''example.com''"]
    by simp
qed

text \<open>Normalizing twice is normalizing once.\<close>

lemma normalizeUrl_idempotent: "normalizeUrl (normalizeUrl u) = normalizeUrl u"
  by (simp add: normalizeUrl_def startsWith_def)

text \<open>
  An address without a scheme that happens to start with \<^verbatim>\<open>http\<close> gets no prefix, and
  is then not an address \<^verbatim>\<open>new URL\<close> accepts.
\<close>

lemma normalizeUrl_httpbin:
  "\<not> specSchemePresent ''httpbin.org'' \<and> normalizeUrl ''httpbin.org'' = ''httpbin.org''"
  by code_simp

subsection \<open>The retrieval\<close>

text \<open>What the \<^verbatim>\<open>try\<close> block returns: an API or scraped text, and a cache written once.\<close>

lemma scrapeWebsiteTry_returns:
  assumes "scrapeWebsiteTry P W c n k = Inr (r, c')"
  shows "(\<exists>rest. r = ''API content from '' @ rest \<or> r = ''Scraped content from '' @ rest) \<and>
         (\<exists>b t. c' = updateCache c k b t (writeClock W))"
  using assms
  by (auto simp: scrapeWebsiteTry_def Let_def split: sum.splits option.splits if_splits prod.splits)


lemma scrapeWebsite_storage:
  "snd (scrapeWebsite P W c u now) = c \<or>
   (\<exists>b t. snd (scrapeWebsite P W c u now)
            = updateCache c (getCacheKey P (normalizeUrl u)) b t (writeClock W))"
proof (cases "scrapeWebsiteTry P W c (normalizeUrl u) (getCacheKey P (normalizeUrl u))")
  case (Inl err)
  then show ?thesis
    by (simp add: scrapeWebsite_def Let_def split: option.splits)
next
  case (Inr rc)
  obtain r c' where rc: "rc = (r, c')" by (cases rc)
  from scrapeWebsiteTry_returns [OF Inr [unfolded rc]]
  obtain b t where "c' = updateCache c (getCacheKey P (normalizeUrl u)) b t (writeClock W)"
    by blast
  then show ?thesis using Inr rc
    by (auto simp: scrapeWebsite_def Let_def split: option.splits)
qed

lemma scrapeWebsite_expired_no_hit:
  assumes "mapGet c (getCacheKey P (normalizeUrl u)) = Some e"
    and "\<not> now - timestamp e < ttl e"
  shows "fst (scrapeWebsite P W c u now)
           \<noteq> ''Cached content from '' @ normalizeUrl u @ '':'' @ NL @ separator @ NL @ content e"
proof (cases "scrapeWebsiteTry P W c (normalizeUrl u) (getCacheKey P (normalizeUrl u))")
  case (Inl err)
  then show ?thesis using assms
    by (simp add: scrapeWebsite_def Let_def)
next
  case (Inr rc)
  obtain r c' where rc: "rc = (r, c')" by (cases rc)
  from scrapeWebsiteTry_returns [OF Inr [unfolded rc]]
  obtain rest where "r = ''API content from '' @ rest \<or> r = ''Scraped content from '' @ rest"
    by blast
  then show ?thesis using assms Inr rc
    by (auto simp: scrapeWebsite_def Let_def)
qed

text \<open>
  C2. Let the cache hold an entry \<open>e\<close> under the key of the address. The retrieval at
  clock reading \<open>now\<close> answers with the cached content, and leaves the cache as it is,
  if and only if \<open>now - timestamp e < ttl e\<close>: at \<open>timestamp e + ttl e - 1\<close> it does, at
  \<open>timestamp e + ttl e\<close> or later it does not. The lookup removes nothing: after the
  call the cache is the same, or it is the cache that one \<^verbatim>\<open>updateCache\<close> under this
  key has written.
\<close>

theorem scrapeWebsite_hit_iff_fresh:
  assumes "mapGet c (getCacheKey P (normalizeUrl u)) = Some e"
  shows "((scrapeWebsite P W c u now =
             (''Cached content from '' @ normalizeUrl u @ '':'' @ NL @ separator @ NL @ content e, c))
          = (now - timestamp e < ttl e)) \<and>
         scrapeWebsite P W c u (timestamp e + ttl e - 1) =
             (''Cached content from '' @ normalizeUrl u @ '':'' @ NL @ separator @ NL @ content e, c) \<and>
         (timestamp e + ttl e \<le> now \<longrightarrow>
            fst (scrapeWebsite P W c u now)
              \<noteq> ''Cached content from '' @ normalizeUrl u @ '':'' @ NL @ separator @ NL @ content e) \<and>
         (snd (scrapeWebsite P W c u now) = c \<or>
          (\<exists>b t. snd (scrapeWebsite P W c u now)
                   = updateCache c (getCacheKey P (normalizeUrl u)) b t (writeClock W)))"
proof -
  have hit: "scrapeWebsite P W c u t =
             (''Cached content from '' @ normalizeUrl u @ '':'' @ NL @ separator @ NL @ content e, c)"
    if "t - timestamp e < ttl e" for t
    using that assms by (simp add: scrapeWebsite_def Let_def)
  have miss: "fst (scrapeWebsite P W c u now)
              \<noteq> ''Cached content from '' @ normalizeUrl u @ '':'' @ NL @ separator @ NL @ content e"
    if "\<not> now - timestamp e < ttl e"
    using assms that by (rule scrapeWebsite_expired_no_hit)
  have 1: "(scrapeWebsite P W c u now =
             (''Cached content from '' @ normalizeUrl u @ '':'' @ NL @ separator @ NL @ content e, c))
          = (now - timestamp e < ttl e)"
    using hit [of now] miss by (cases "now - timestamp e < ttl e") auto
  have 2: "scrapeWebsite P W c u (timestamp e + ttl e - 1) =
             (''Cached content from '' @ normalizeUrl u @ '':'' @ NL @ separator @ NL @ content e, c)"
    by (rule hit) simp
  have 3: "fst (scrapeWebsite P W c u now)
              \<noteq> ''Cached content from '' @ normalizeUrl u @ '':'' @ NL @ separator @ NL @ content e"
    if "timestamp e + ttl e \<le> now"
    using that by (intro miss) simp
  from 1 2 3 scrapeWebsite_storage [of P W c u now] show ?thesis by blast
qed

theorem scrapeWebsite_hit_iff_fresh_witness:
  "scrapeWebsite plainPlatform timedOut staleCache ''example.com'' 4599 =
     (''Cached content from https://example.com:'' @ NL @ separator @ NL @ ''old page'', staleCache) \<and>
   fst (scrapeWebsite plainPlatform timedOut staleCache ''example.com'' 4600)
     \<noteq> ''Cached content from https://example.com:'' @ NL @ separator @ NL @ ''old page''"
proof -
  let ?e = "\<lparr>content = ''old page'', timestamp = 1000, ttl = 3600\<rparr>"
  have e: "mapGet staleCache (getCacheKey plainPlatform (normalizeUrl ''example.com'')) = Some ?e"
    by code_simp
  have n: "normalizeUrl ''example.com'' = ''https://example.com''"
    by code_simp
  show ?thesis
    using scrapeWebsite_hit_iff_fresh [OF e, of timedOut 4599]
      scrapeWebsite_hit_iff_fresh [OF e, of timedOut 4600]
    by (simp add: n)
qed







subsection \<open>Confidence and formatting\<close>







end
